theory Spec2Isabelle
  imports Complex_Main "HOL-Library.Word" "HOL-Library.Signed_Division" "HOL-Library.AList"
begin

section \<open>The zebra bridge of the BGP daemon (server/zclient.go)\<close>

text \<open>
  The development embeds the functions of \<^verbatim>\<open>server/zclient.go\<close>: the nexthop tracking
  manager with its damping loop, the translators between BGP paths and route messages of
  the RIB daemon, and the opening of the bridge. Types of the packages \<^verbatim>\<open>net\<close>,
  \<^verbatim>\<open>bgp\<close>, \<^verbatim>\<open>table\<close> and \<^verbatim>\<open>zebra\<close> are modelled by the attributes the file reads.
\<close>

subsection \<open>Addresses (Go's net.IP)\<close>

text \<open>
  A \<^verbatim>\<open>net.IP\<close> is a byte slice of length 4 or 16; the nil address is the empty list
  (\<^verbatim>\<open>To4\<close> and \<^verbatim>\<open>To16\<close> never return an empty slice that is not nil).
\<close>

type_synonym byte = "8 word"
type_synonym IP = "byte list"

definition v4InV6Prefix :: "byte list" where
  "v4InV6Prefix = [0, 0, 0, 0, 0, 0, 0, 0, 0, 0, 0xff, 0xff]"

definition IPv4 :: "byte \<Rightarrow> byte \<Rightarrow> byte \<Rightarrow> byte \<Rightarrow> IP" where
  "IPv4 a b c d = v4InV6Prefix @ [a, b, c, d]"

definition To4 :: "IP \<Rightarrow> IP" where
  "To4 ip =
     (if length ip = 4 then ip
      else if length ip = 16 \<and> take 12 ip = v4InV6Prefix then drop 12 ip
      else [])"

definition To16 :: "IP \<Rightarrow> IP" where
  "To16 ip =
     (if length ip = 4 then IPv4 (ip ! 0) (ip ! 1) (ip ! 2) (ip ! 3)
      else if length ip = 16 then ip
      else [])"



definition IPv6loopback :: IP where
  "IPv6loopback = replicate 15 0 @ [1]"

definition Equal :: "IP \<Rightarrow> IP \<Rightarrow> bool" where
  "Equal ip x =
     (if length ip = length x then ip = x
      else if length ip = 4 \<and> length x = 16 then take 12 x = v4InV6Prefix \<and> ip = drop 12 x
      else if length ip = 16 \<and> length x = 4 then take 12 ip = v4InV6Prefix \<and> drop 12 ip = x
      else False)"


text \<open>
  The textual form of an address (\<^verbatim>\<open>IP.String\<close>): dotted decimal for an IPv4 address in
  either width, otherwise lower-case hexadecimal groups with the first longest run of at
  least two zero groups written \<^verbatim>\<open>::\<close>.
\<close>

definition digits :: string where
  "digits = ''0123456789abcdef''"

function uitoa :: "nat \<Rightarrow> string" where
  "uitoa n = (if n < 10 then [digits ! n] else uitoa (n div 10) @ [digits ! (n mod 10)])"
  by pat_completeness auto
termination
  by (relation "measure (\<lambda>n. n)") auto

declare uitoa.simps [simp del]

function appendHex :: "nat \<Rightarrow> string" where
  "appendHex n = (if n < 16 then [digits ! n] else appendHex (n div 16) @ [digits ! (n mod 16)])"
  by pat_completeness auto
termination
  by (relation "measure (\<lambda>n. n)") auto

declare appendHex.simps [simp del]

definition hexString :: "byte list \<Rightarrow> string" where
  "hexString b = concat (map (\<lambda>x. [digits ! (unat x div 16), digits ! (unat x mod 16)]) b)"

fun join :: "string list \<Rightarrow> string \<Rightarrow> string" where
  "join [] sep = []"
| "join [x] sep = x"
| "join (x # y # ys) sep = x @ sep @ join (y # ys) sep"

fun groups16 :: "byte list \<Rightarrow> nat list" where
  "groups16 (hi # lo # rest) = (256 * unat hi + unat lo) # groups16 rest"
| "groups16 _ = []"

fun zeroRun :: "nat \<Rightarrow> nat list \<Rightarrow> nat \<times> nat \<Rightarrow> nat \<times> nat" where
  "zeroRun i [] best = best"
| "zeroRun i (g # gs) best =
     zeroRun (i + 1) gs
       (let r = length (takeWhile (\<lambda>x. x = 0) (g # gs))
        in if r > snd best then (i, r) else best)"

definition ipv6_String :: "nat list \<Rightarrow> string" where
  "ipv6_String gs =
     (let (e0, n) = zeroRun 0 gs (0, 0)
      in if n \<le> 1 then join (map appendHex gs) '':''
         else join (map appendHex (take e0 gs)) '':'' @ ''::''
              @ join (map appendHex (drop (e0 + n) gs)) '':'')"

definition IP_String :: "IP \<Rightarrow> string" where
  "IP_String ip =
     (if length ip = 0 then ''<nil>''
      else if length (To4 ip) = 4 then join (map (\<lambda>b. uitoa (unat b)) (To4 ip)) ''.''
      else if length ip \<noteq> 16 then ''?'' @ hexString ip
      else ipv6_String (groups16 ip))"

subsection \<open>Paths (package table) and their NLRI (package bgp)\<close>

datatype RouteFamily = RF_IPv4_UC | RF_IPv6_UC | RF_IPv4_VPN | RF_IPv6_VPN | RF_OPAQUE

text \<open>
  Modelled from the spec: the NLRI types of package \<^verbatim>\<open>bgp\<close> are not in the source file.
  An NLRI is its family (fixed by its Go type), the prefix with its length, an optional
  route distinguisher (empty for the unicast families) and the path-local identifier.
\<close>

record Nlri =
  nlri_family :: RouteFamily
  nlri_RD :: string
  nlri_Prefix :: IP
  nlri_Length :: "8 word"
  nlri_PathLocalIdentifier :: "32 word"

text \<open>
  Modelled from the spec: \<^verbatim>\<open>String()\<close> of an NLRI, the prefix in the form
  \<^verbatim>\<open>address/length\<close>, after the route distinguisher and a colon for the VPN families.
\<close>

definition Nlri_String :: "Nlri \<Rightarrow> string" where
  "Nlri_String n =
     (if nlri_RD n = [] then [] else nlri_RD n @ '':'')
     @ IP_String (nlri_Prefix n) @ ''/'' @ uitoa (unat (nlri_Length n))"

record PeerInfo =
  AS :: "32 word"
  LocalAS :: "32 word"
  MultihopTtl :: "8 word"

text \<open>
  Modelled from the spec: \<^verbatim>\<open>table.Path\<close> is not in the source file. A path is the record
  of the attributes that the bridge reads through its accessors: \<^verbatim>\<open>GetNlri\<close>,
  \<^verbatim>\<open>GetNexthop\<close>, \<^verbatim>\<open>GetMed\<close> (no value where the accessor returns an error),
  \<^verbatim>\<open>GetSource\<close> (a pointer that is nil for a path built without a source),
  \<^verbatim>\<open>GetCommunities\<close>, \<^verbatim>\<open>GetAsPathLen\<close>, \<^verbatim>\<open>GetAsPath\<close> (nil or the attribute, held as its
  serialised bytes), \<^verbatim>\<open>IsFromExternal\<close>, and the two public flags.
\<close>

record Path =
  nlri :: Nlri
  nexthop :: IP
  IsWithdraw :: bool
  IsNexthopInvalid :: bool
  med :: "32 word option"
  source :: "PeerInfo option"
  communities :: "32 word list"
  asPathLen :: int
  asPath :: "byte list option"
  isFromExternal :: bool

text \<open>A \<^verbatim>\<open>pathList\<close> is a slice of pointers: an element may be nil.\<close>

type_synonym pathList = "Path option list"

definition GetRouteFamily :: "Path \<Rightarrow> RouteFamily" where
  "GetRouteFamily path = nlri_family (nlri path)"

subsection \<open>The nexthop tracking manager\<close>

text \<open>
  The channels of the manager are the events of its loop (below); the server handle has
  no content here. The scheduled path lists are kept as an association list: Go ranges
  over the map in no fixed order, the model in the order of first insertion.
\<close>

record nexthopTrackingManager =
  nexthopCache :: "string set"
  delay :: int
  isScheduled :: bool
  scheduledPathList :: "(string \<times> Path list) list"

definition newNexthopTrackingManager :: "int \<Rightarrow> nexthopTrackingManager" where
  "newNexthopTrackingManager d =
     \<lparr>nexthopCache = {}, delay = d, isScheduled = False, scheduledPathList = []\<rparr>"



definition unregisterNexthop :: "nexthopTrackingManager \<Rightarrow> IP \<Rightarrow> nexthopTrackingManager" where
  "unregisterNexthop m nh = m\<lparr>nexthopCache := nexthopCache m - {IP_String nh}\<rparr>"

definition appendPathList :: "nexthopTrackingManager \<Rightarrow> Path list \<Rightarrow> nexthopTrackingManager" where
  "appendPathList m paths =
     (case paths of
        [] \<Rightarrow> m
      | path # _ \<Rightarrow>
          m\<lparr>scheduledPathList :=
              AList.update (IP_String (nexthop path)) paths (scheduledPathList m)\<rparr>)"

text \<open>
  \<^verbatim>\<open>calculateDelay\<close>: the loop adds 8 and halves the penalty while it exceeds 950. Go's
  \<^verbatim>\<open>/\<close> truncates towards zero (\<open>sdiv\<close>). The penalty and the delay are Go \<^verbatim>\<open>int\<close>s, taken
  as integers: the loop only halves a positive value and adds 8 at most once per bit.
\<close>

function delayLoop :: "int \<Rightarrow> int \<Rightarrow> int" where
  "delayLoop d penalty =
     (if penalty > 950 then delayLoop (d + 8) (penalty sdiv 2) else d)"
  by pat_completeness auto
termination
  by (relation "measure (\<lambda>(d, penalty). nat penalty)")
     (auto simp: signed_divide_int_def sgn_if)

declare delayLoop.simps [simp del]

definition calculateDelay :: "nexthopTrackingManager \<Rightarrow> int \<Rightarrow> int" where
  "calculateDelay m penalty = (if penalty \<le> 950 then delay m else delayLoop 8 penalty)"

text \<open>
  The loop of the manager, one step per received event: the shutdown signal, a tick of
  the 8-second ticker, a path list from \<^verbatim>\<open>scheduleUpdate\<close>, the trigger of the timer.
  The state holds the manager, the local counter \<^verbatim>\<open>penalty\<close>, and what the loop has done:
  the delays of the timers it armed, the path lists it passed to \<^verbatim>\<open>UpdatePath\<close>, and
  whether it has returned.
\<close>

datatype nhtEvent = Dead | Tick | PathListCh "Path list" | Trigger

record loopState =
  mgr :: nexthopTrackingManager
  penalty :: int
  armed :: "int list"
  updated :: "Path list list"
  returned :: bool

definition loopInit :: "nexthopTrackingManager \<Rightarrow> loopState" where
  "loopInit m = \<lparr>mgr = m, penalty = 0, armed = [], updated = [], returned = False\<rparr>"

fun loopStep :: "loopState \<Rightarrow> nhtEvent \<Rightarrow> loopState" where
  "loopStep s Dead = s\<lparr>returned := True\<rparr>"
| "loopStep s Tick = s\<lparr>penalty := penalty s sdiv 2\<rparr>"
| "loopStep s (PathListCh paths) =
     (let p = penalty s + 500;
          m = appendPathList (mgr s) paths
      in if isScheduled m then s\<lparr>mgr := m, penalty := p\<rparr>
         else s\<lparr>mgr := m\<lparr>isScheduled := True\<rparr>, penalty := p,
                armed := armed s @ [calculateDelay m p]\<rparr>)"
| "loopStep s Trigger =
     (let m = mgr s;
          paths = concat (map snd (scheduledPathList m))
      in s\<lparr>mgr := m\<lparr>isScheduled := False, scheduledPathList := []\<rparr>,
            updated := updated s @ [paths]\<rparr>)"

fun loopRun :: "loopState \<Rightarrow> nhtEvent list \<Rightarrow> loopState" where
  "loopRun s [] = s"
| "loopRun s (e # es) = (if returned s then s else loopRun (loopStep s e) es)"

definition loop :: "nexthopTrackingManager \<Rightarrow> nhtEvent list \<Rightarrow> loopState" where
  "loop m evs = loopRun (loopInit m) evs"

subsection \<open>Messages of the RIB daemon (package zebra)\<close>

text \<open>
  Modelled from the spec: the message types of package \<^verbatim>\<open>zebra\<close> are not in the source
  file. The two flag fields are bit sets over named single-bit constants and are kept as
  sets of the names. A received route body carries the command it came with, from which
  \<^verbatim>\<open>RouteFamily()\<close> and \<^verbatim>\<open>IsWithdraw()\<close> are read.
\<close>

datatype API_TYPE =
  IPV4_ROUTE_ADD | IPV4_ROUTE_DELETE | IPV6_ROUTE_ADD | IPV6_ROUTE_DELETE | API_OTHER

datatype ROUTE_TYPE =
  ROUTE_SYSTEM | ROUTE_KERNEL | ROUTE_CONNECT | ROUTE_STATIC | ROUTE_RIP | ROUTE_RIPNG
  | ROUTE_OSPF | ROUTE_OSPF6 | ROUTE_ISIS | ROUTE_BGP

datatype SAFI = SAFI_UNSPEC | SAFI_UNICAST | SAFI_MULTICAST

datatype FLAG = FLAG_INTERNAL | FLAG_SELFROUTE | FLAG_BLACKHOLE | FLAG_IBGP | FLAG_REJECT

datatype MESSAGE_FLAG =
  MESSAGE_NEXTHOP | MESSAGE_IFINDEX | MESSAGE_DISTANCE | MESSAGE_METRIC | MESSAGE_MTU
  | MESSAGE_ASPATH | MESSAGE_PATH_ID

record IPRouteBody =
  Api :: API_TYPE
  Type :: ROUTE_TYPE
  Flags :: "FLAG set"
  SAFI :: SAFI
  Message :: "MESSAGE_FLAG set"
  Prefix :: IP
  PrefixLength :: "8 word"
  Nexthops :: "IP list"
  Metric :: "32 word"
  Aux :: "byte list"
  PathId :: "32 word"

definition RouteFamily :: "IPRouteBody \<Rightarrow> RouteFamily" where
  "RouteFamily b =
     (case Api b of
        IPV4_ROUTE_ADD \<Rightarrow> RF_IPv4_UC | IPV4_ROUTE_DELETE \<Rightarrow> RF_IPv4_UC
      | IPV6_ROUTE_ADD \<Rightarrow> RF_IPv6_UC | IPV6_ROUTE_DELETE \<Rightarrow> RF_IPv6_UC
      | API_OTHER \<Rightarrow> RF_OPAQUE)"

definition IsWithdraw_body :: "IPRouteBody \<Rightarrow> bool" where
  "IsWithdraw_body b \<longleftrightarrow> Api b = IPV4_ROUTE_DELETE \<or> Api b = IPV6_ROUTE_DELETE"

record RegisteredNexthop =
  Family :: "16 word"
  rn_Prefix :: IP

record NexthopRegisterBody =
  rb_Nexthops :: "RegisteredNexthop list"

record NexthopUpdateBody =
  nu_Family :: "16 word"
  nu_Prefix :: IP
  nu_Metric :: "32 word"
  nu_Nexthops :: "IP list"

definition AF_INET :: "16 word" where
  "AF_INET = 2"

definition AF_INET6 :: "16 word" where
  "AF_INET6 = 10"

subsection \<open>From paths to messages\<close>

datatype panic = IndexOutOfRange | NilDereference


fun filterOutExternalPath :: "pathList \<Rightarrow> Path list" where
  "filterOutExternalPath [] = []"
| "filterOutExternalPath (None # paths) = filterOutExternalPath paths"
| "filterOutExternalPath (Some path # paths) =
     (if isFromExternal path then filterOutExternalPath paths
      else path # filterOutExternalPath paths)"

text \<open>
  \<^verbatim>\<open>strings.SplitN(s, sep, 2)\<close> for a separator of one character: the text before the
  first separator and the text after it, or the text alone when it has no separator.
\<close>

definition SplitN2 :: "string \<Rightarrow> char \<Rightarrow> string list" where
  "SplitN2 s sep =
     (if sep \<in> set s
      then [takeWhile (\<lambda>c. c \<noteq> sep) s, tl (dropWhile (\<lambda>c. c \<noteq> sep) s)]
      else [s])"

text \<open>
  \<^verbatim>\<open>strconv.ParseUint(s, 10, 8)\<close>, the value only (the caller drops the error): 0 for
  text that is empty or has a character that is no decimal digit, 255 for a number out of
  the range of 8 bits.
\<close>

definition digitVal :: "char \<Rightarrow> nat" where
  "digitVal c = of_char c - 48"

definition ParseUint8 :: "string \<Rightarrow> nat" where
  "ParseUint8 s =
     (if s = [] \<or> \<not> list_all (\<lambda>c. c \<in> set ''0123456789'') s then 0
      else min 255 (foldl (\<lambda>n c. 10 * n + digitVal c) 0 s))"

text \<open>The two loops over the paths that collect the nexthops (lines 245--255, 262--272).\<close>

fun nexthopsV4 :: "bool \<Rightarrow> Path list \<Rightarrow> IP list" where
  "nexthopsV4 selfRouteWithdraw [] = []"
| "nexthopsV4 selfRouteWithdraw (p # paths) =
     (let nhop = (if selfRouteWithdraw then To4 (IPv4 127 0 0 1) else To4 (nexthop p))
      in if nhop \<noteq> [] then nhop # nexthopsV4 selfRouteWithdraw paths
         else nexthopsV4 selfRouteWithdraw paths)"

fun nexthopsV6 :: "bool \<Rightarrow> Path list \<Rightarrow> IP list" where
  "nexthopsV6 selfRouteWithdraw [] = []"
| "nexthopsV6 selfRouteWithdraw (p # paths) =
     (let nhop = (if selfRouteWithdraw then To16 IPv6loopback else To16 (nexthop p))
      in if nhop \<noteq> [] then nhop # nexthopsV6 selfRouteWithdraw paths
         else nexthopsV6 selfRouteWithdraw paths)"

text \<open>
  \<^verbatim>\<open>newIPRouteBody\<close>, in the order of the source: the route flags (lines 285--296; the
  value of the community \<^verbatim>\<open>COMMUNITY_REGION_BACKUP\<close> is declared in package \<^verbatim>\<open>bgp\<close> and
  is a parameter), the serialised AS path (lines 297--301; empty where the path has none),
  the assembly of the message from line 276 on, and the function itself. The result is
  the pair that the function returns, or its panic: \<^verbatim>\<open>l[1]\<close> on a text without a slash,
  \<^verbatim>\<open>info.AS\<close> on a path without a source.
\<close>

definition routeFlags :: "32 word \<Rightarrow> Path \<Rightarrow> PeerInfo \<Rightarrow> FLAG set" where
  "routeFlags COMMUNITY_REGION_BACKUP path info =
     (if AS info = LocalAS info then {FLAG_IBGP, FLAG_INTERNAL}
      else if MultihopTtl info > 0 then {FLAG_INTERNAL}
      else {})
     \<union> (if COMMUNITY_REGION_BACKUP \<in> set (communities path) then {FLAG_REJECT} else {})"

definition serializedAsPath :: "Path \<Rightarrow> byte list" where
  "serializedAsPath path =
     (if asPathLen path > 0 then (case asPath path of Some b \<Rightarrow> b | None \<Rightarrow> []) else [])"

definition routeBody ::
    "32 word \<Rightarrow> Path \<Rightarrow> string list \<Rightarrow> IP \<Rightarrow> IP list
      \<Rightarrow> panic + (IPRouteBody option \<times> bool)" where
  "routeBody COMMUNITY_REGION_BACKUP path l prefix nexthops =
     (case l of
        [] \<Rightarrow> Inl IndexOutOfRange
      | [l0] \<Rightarrow> Inl IndexOutOfRange
      | l0 # l1 # ls \<Rightarrow>
         (case source path of
            None \<Rightarrow> Inl NilDereference
          | Some info \<Rightarrow>
             (let plen = ParseUint8 l1;
                  aux = serializedAsPath path;
                  pathId = (if plen = 0 then nlri_PathLocalIdentifier (nlri path) else 0);
                  msgFlags =
                    (if length nexthops > 0 then {MESSAGE_NEXTHOP} else {})
                    \<union> (if med path \<noteq> None then {MESSAGE_METRIC} else {})
                    \<union> (if length aux > 3 then {MESSAGE_ASPATH} else {})
                    \<union> (if plen = 0 then {MESSAGE_PATH_ID} else {})
              in if plen = 0 \<and> pathId = 0 then Inr (None, False)
                 else Inr (Some \<lparr>Api = API_OTHER, Type = ROUTE_BGP,
                                 Flags = routeFlags COMMUNITY_REGION_BACKUP path info,
                                 SAFI = SAFI_UNICAST, Message = msgFlags, Prefix = prefix,
                                 PrefixLength = of_nat plen, Nexthops = nexthops,
                                 Metric = (case med path of Some v \<Rightarrow> v | None \<Rightarrow> 0),
                                 Aux = (if length aux > 3 then drop 3 aux else aux),
                                 PathId = pathId\<rparr>,
                           IsWithdraw path))))"

definition newIPRouteBody ::
    "32 word \<Rightarrow> pathList \<Rightarrow> bool \<Rightarrow> panic + (IPRouteBody option \<times> bool)" where
  "newIPRouteBody COMMUNITY_REGION_BACKUP dst selfRouteWithdraw =
     (case filterOutExternalPath dst of
        [] \<Rightarrow> Inr (None, False)
      | path # rest \<Rightarrow>
         (let paths = path # rest;
              l = SplitN2 (Nlri_String (nlri path)) CHR ''/'';
              family = GetRouteFamily path
          in if family = RF_IPv4_UC \<or> family = RF_IPv4_VPN then
               routeBody COMMUNITY_REGION_BACKUP path l (To4 (nlri_Prefix (nlri path)))
                 (nexthopsV4 selfRouteWithdraw paths)
             else if family = RF_IPv6_UC \<or> family = RF_IPv6_VPN then
               routeBody COMMUNITY_REGION_BACKUP path l (To16 (nlri_Prefix (nlri path)))
                 (nexthopsV6 selfRouteWithdraw paths)
             else Inr (None, False)))"



subsection \<open>From messages to paths\<close>

text \<open>
  Modelled from the spec: the constructors of package \<^verbatim>\<open>bgp\<close> and \<^verbatim>\<open>table.NewPath\<close> are
  not in the source file. Each constructor is given the text of an address
  (\<^verbatim>\<open>ip.String()\<close>) and parses it back with \<^verbatim>\<open>net.ParseIP\<close>; the text of an address of 4 or
  16 bytes parses to its 16-byte form and any other text to nil, so the round trip
  through the text is \<open>To16\<close>, and the model hands the address over in place of its text
  (nil for the empty text). The IPv4 prefix and the IPv4 nexthop attribute keep the 4-byte
  form. A new path has no source; the path built here carries the origin attribute, the
  nexthop attribute and the MED.
\<close>

definition NewIPAddrPrefix :: "8 word \<Rightarrow> IP \<Rightarrow> Nlri" where
  "NewIPAddrPrefix len ip =
     \<lparr>nlri_family = RF_IPv4_UC, nlri_RD = [], nlri_Prefix = To4 (To16 ip),
      nlri_Length = len, nlri_PathLocalIdentifier = 0\<rparr>"

definition NewIPv6AddrPrefix :: "8 word \<Rightarrow> IP \<Rightarrow> Nlri" where
  "NewIPv6AddrPrefix len ip =
     \<lparr>nlri_family = RF_IPv6_UC, nlri_RD = [], nlri_Prefix = To16 ip,
      nlri_Length = len, nlri_PathLocalIdentifier = 0\<rparr>"

definition NewPath :: "Nlri \<Rightarrow> bool \<Rightarrow> IP \<Rightarrow> 32 word \<Rightarrow> Path" where
  "NewPath n isWithdraw nh metric =
     \<lparr>nlri = n, nexthop = nh, IsWithdraw = isWithdraw, IsNexthopInvalid = False,
      med = Some metric, source = None, communities = [], asPathLen = 0, asPath = None,
      isFromExternal = False\<rparr>"

definition SetIsFromExternal :: "bool \<Rightarrow> Path \<Rightarrow> Path" where
  "SetIsFromExternal y path = path\<lparr>isFromExternal := y\<rparr>"

text \<open>
  \<^verbatim>\<open>createPathFromIPRouteMessage\<close>, on the route body of the message (the bridge loop
  calls it in the \<^verbatim>\<open>IPRouteBody\<close> case of its type switch; the header is only logged).
  The result is \<open>None\<close> where the function returns nil.
\<close>

definition createPathFromIPRouteMessage :: "IPRouteBody \<Rightarrow> Path option" where
  "createPathFromIPRouteMessage body =
     (let family = RouteFamily body;
          isWithdraw = IsWithdraw_body body
      in case family of
           RF_IPv4_UC \<Rightarrow>
             (let n = NewIPAddrPrefix (PrefixLength body) (Prefix body);
                  nh = (if length (Nexthops body) > 0 then To4 (To16 (Nexthops body ! 0))
                        else [])
              in Some (SetIsFromExternal True (NewPath n isWithdraw nh (Metric body))))
         | RF_IPv6_UC \<Rightarrow>
             (let n = NewIPv6AddrPrefix (PrefixLength body) (Prefix body);
                  nh = (if length (Nexthops body) > 0 then To16 (Nexthops body ! 0) else [])
              in Some (SetIsFromExternal True (NewPath n isWithdraw nh (Metric body))))
         | _ \<Rightarrow> None)"

subsection \<open>Nexthop updates\<close>

definition rfListFromNexthopUpdateBody :: "NexthopUpdateBody \<Rightarrow> RouteFamily list" where
  "rfListFromNexthopUpdateBody body =
     (if nu_Family body = AF_INET then [RF_IPv4_UC, RF_IPv4_VPN]
      else if nu_Family body = AF_INET6 then [RF_IPv6_UC, RF_IPv6_VPN]
      else [])"

text \<open>
  Modelled from the spec: \<^verbatim>\<open>table.TableManager\<close> and the methods \<^verbatim>\<open>Clone\<close> and \<^verbatim>\<open>SetMed\<close>
  of a path are not in the source file. A table is the list of its known paths; the
  query returns, over the tables of the given families, the paths bound to the nexthop.
  A clone shares every attribute of its parent but the withdraw flag it is given.
  \<^verbatim>\<open>SetMed\<close> with \<^verbatim>\<open>doReplace\<close> stores the value, converted to 32 bits, as the MED;
  without it, it adds the value to the MED, and rejects a sum out of the range of 32
  bits, leaving the path as it is.
\<close>

type_synonym TableManager = "RouteFamily \<Rightarrow> Path list option"

definition GetPathListWithNexthop :: "TableManager \<Rightarrow> RouteFamily list \<Rightarrow> IP \<Rightarrow> Path list" where
  "GetPathListWithNexthop manager rfList nh =
     concat (map (\<lambda>rf. case manager rf of
                          None \<Rightarrow> []
                        | Some t \<Rightarrow> filter (\<lambda>path. Equal (nexthop path) nh) t) rfList)"

definition Clone :: "bool \<Rightarrow> Path \<Rightarrow> Path" where
  "Clone isWithdraw path = path\<lparr>IsWithdraw := isWithdraw\<rparr>"

definition SetMed :: "int \<Rightarrow> bool \<Rightarrow> Path \<Rightarrow> Path" where
  "SetMed v doReplace path =
     (if doReplace then path\<lparr>med := Some (word_of_int v)\<rparr>
      else
       (let sum = (case med path of Some m \<Rightarrow> uint m | None \<Rightarrow> 0) + v
        in if sum < 0 \<or> 4294967295 < sum then path
           else path\<lparr>med := Some (word_of_int sum)\<rparr>))"

type_synonym error = string

definition createPathListFromNexthopUpdateMessage ::
    "NexthopUpdateBody \<Rightarrow> TableManager \<Rightarrow> nexthopTrackingManager
      \<Rightarrow> (Path list \<times> NexthopRegisterBody option \<times> error option) \<times> nexthopTrackingManager" where
  "createPathListFromNexthopUpdateMessage body manager nhtManager =
     (let isNexthopInvalid = (length (nu_Nexthops body) = 0);
          paths = GetPathListWithNexthop manager (rfListFromNexthopUpdateBody body)
                    (nu_Prefix body);
          pathsLen = length paths;
          nexthopUnregisterBody =
            (if pathsLen = 0
             then Some \<lparr>rb_Nexthops = [\<lparr>Family = nu_Family body, rn_Prefix = nu_Prefix body\<rparr>]\<rparr>
             else None);
          nhtManager' =
            (if pathsLen = 0 then unregisterNexthop nhtManager (nu_Prefix body)
             else nhtManager);
          updatedPathList =
            map (\<lambda>path.
                   let newPath = Clone False path
                   in if isNexthopInvalid then newPath\<lparr>IsNexthopInvalid := True\<rparr>
                      else SetMed (uint (nu_Metric body)) True
                             (newPath\<lparr>IsNexthopInvalid := False\<rparr>)) paths
      in ((updatedPathList, nexthopUnregisterBody, None), nhtManager'))"

text \<open>
  The branch of the bridge loop for a nexthop update with tracking enabled (lines
  617--624): what it does with the result, as the list of its actions.
  \<^verbatim>\<open>scheduleUpdate\<close> sends a path list that is not empty to the loop of the manager.
\<close>

datatype bridgeAction =
  LogErrorf string
  | SendPathList "Path list"
  | SendNexthopRegister "16 word" NexthopRegisterBody bool

definition scheduleUpdate :: "Path list \<Rightarrow> bridgeAction list" where
  "scheduleUpdate paths = (if length paths = 0 then [] else [SendPathList paths])"

definition onNexthopUpdate ::
    "16 word \<Rightarrow> NexthopUpdateBody \<Rightarrow> TableManager \<Rightarrow> nexthopTrackingManager
      \<Rightarrow> bridgeAction list \<times> nexthopTrackingManager" where
  "onNexthopUpdate vrfId body manager nhtManager =
     (case createPathListFromNexthopUpdateMessage body manager nhtManager of
        ((paths, b, Some err), m') \<Rightarrow>
          ([LogErrorf (''failed to create updated path list related to nexthop ''
                        @ IP_String (nu_Prefix body))], m')
      | ((paths, b, None), m') \<Rightarrow>
          (scheduleUpdate paths
           @ (case b of Some b' \<Rightarrow> [SendNexthopRegister vrfId b' True] | None \<Rightarrow> []), m'))"

subsection \<open>Opening the bridge\<close>

text \<open>
  \<^verbatim>\<open>newZebraClient\<close>. \<^verbatim>\<open>zebra.NewClient\<close> and \<^verbatim>\<open>zebra.RouteTypeFromString\<close> are not in the
  source file and are parameters: each returns its value or an error. The result is the
  client or the error, with what the function did before it returned: the messages it
  sent and whether it started the bridge loop.
\<close>

datatype startAction =
  Warnf "8 word"
  | SendInterfaceAdd
  | SendRedistribute ROUTE_TYPE
  | GoLoop

record 'c zebraClient =
  client :: 'c
  nhtManager :: "nexthopTrackingManager option"

text \<open>
  The loop over the requested protocols (lines 755--761): the subscriptions sent, and
  the error at which it stopped, if any.
\<close>

fun redistribute ::
    "(string \<Rightarrow> error + ROUTE_TYPE) \<Rightarrow> string list \<Rightarrow> startAction list \<times> error option" where
  "redistribute RouteTypeFromString [] = ([], None)"
| "redistribute RouteTypeFromString (typ # protos) =
     (case RouteTypeFromString typ of
        Inl err \<Rightarrow> ([], Some err)
      | Inr t \<Rightarrow>
         (let (acts, e) = redistribute RouteTypeFromString protos
          in (SendRedistribute t # acts, e)))"

definition newZebraClient ::
    "(string \<Rightarrow> string \<Rightarrow> ROUTE_TYPE \<Rightarrow> 8 word \<Rightarrow> error + 'c)
      \<Rightarrow> (string \<Rightarrow> error + ROUTE_TYPE)
      \<Rightarrow> string \<Rightarrow> string list \<Rightarrow> 8 word \<Rightarrow> bool \<Rightarrow> 8 word
      \<Rightarrow> startAction list \<times> (error + 'c zebraClient)" where
  "newZebraClient NewClient RouteTypeFromString url protos version nhtEnable nhtDelay =
     (case SplitN2 url CHR '':'' of
        [l0, l1] \<Rightarrow>
          (case NewClient l0 l1 ROUTE_BGP version of
             Inl err \<Rightarrow> ([Warnf version], Inl err)
           | Inr cli \<Rightarrow>
              (case redistribute RouteTypeFromString protos of
                 (acts, Some err) \<Rightarrow> (SendInterfaceAdd # acts, Inl err)
               | (acts, None) \<Rightarrow>
                  (SendInterfaceAdd # acts @ [GoLoop],
                   Inr \<lparr>client = cli,
                        nhtManager =
                          (if nhtEnable
                           then Some (newNexthopTrackingManager (uint nhtDelay))
                           else None)\<rparr>)))
      | _ \<Rightarrow> ([], Inl (''unsupported url: '' @ url)))"

subsection \<open>Example values\<close>

text \<open>
  The path of the first scenario of the specification: 10.0.0.0/24 with nexthop
  192.0.2.1, learned from AS 65001 by a speaker in AS 65000; and the route message that
  carries the same route from the RIB daemon.
\<close>

definition exampleNlri :: Nlri where
  "exampleNlri =
     \<lparr>nlri_family = RF_IPv4_UC, nlri_RD = [], nlri_Prefix = [10, 0, 0, 0],
      nlri_Length = 24, nlri_PathLocalIdentifier = 0\<rparr>"

definition examplePath :: Path where
  "examplePath =
     \<lparr>nlri = exampleNlri, nexthop = [192, 0, 2, 1], IsWithdraw = False,
      IsNexthopInvalid = False, med = None,
      source = Some \<lparr>AS = 65001, LocalAS = 65000, MultihopTtl = 0\<rparr>,
      communities = [], asPathLen = 0, asPath = None, isFromExternal = False\<rparr>"

definition exampleRoute :: IPRouteBody where
  "exampleRoute =
     \<lparr>Api = IPV4_ROUTE_ADD, Type = ROUTE_STATIC, Flags = {}, SAFI = SAFI_UNICAST,
      Message = {MESSAGE_NEXTHOP}, Prefix = [10, 0, 0, 0], PrefixLength = 24,
      Nexthops = [[192, 0, 2, 1]], Metric = 0, Aux = [], PathId = 0\<rparr>"

text \<open>
  The same path with an IPv6 nexthop (2001:db8::1), which has no 4-byte form, and the IPv4
  default route with that nexthop and no path-local identifier.
\<close>

definition exampleV6NexthopPath :: Path where
  "exampleV6NexthopPath =
     examplePath\<lparr>nexthop := [0x20, 0x01, 0x0d, 0xb8, 0, 0, 0, 0, 0, 0, 0, 0, 0, 0, 0, 1]\<rparr>"

definition exampleDefaultPath :: Path where
  "exampleDefaultPath =
     exampleV6NexthopPath
       \<lparr>nlri := exampleNlri\<lparr>nlri_Prefix := [0, 0, 0, 0], nlri_Length := 0\<rparr>\<rparr>"

text \<open>
  A table with two paths bound to the nexthop 192.0.2.1 and one bound to another, and a
  nexthop update for 192.0.2.1 with one nexthop and the metric 20.
\<close>

definition exampleTable :: TableManager where
  "exampleTable rf =
     (if rf = RF_IPv4_UC
      then Some [examplePath,
                 examplePath\<lparr>nlri := exampleNlri\<lparr>nlri_Prefix := [10, 0, 1, 0]\<rparr>\<rparr>,
                 examplePath\<lparr>nexthop := [192, 0, 2, 2]\<rparr>]
      else None)"

definition exampleUpdate :: NexthopUpdateBody where
  "exampleUpdate =
     \<lparr>nu_Family = AF_INET, nu_Prefix = [192, 0, 2, 1], nu_Metric = 20,
      nu_Nexthops = [[198, 51, 100, 1]]\<rparr>"

text \<open>
  A client library that always connects, and one that knows two route types by name.
\<close>

definition exampleNewClient :: "string \<Rightarrow> string \<Rightarrow> ROUTE_TYPE \<Rightarrow> 8 word \<Rightarrow> error + unit" where
  "exampleNewClient network address typ version = Inr ()"

definition exampleRouteTypeFromString :: "string \<Rightarrow> error + ROUTE_TYPE" where
  "exampleRouteTypeFromString typ =
     (if typ = ''static'' then Inr ROUTE_STATIC
      else if typ = ''connect'' then Inr ROUTE_CONNECT
      else Inl (''unknown route type: '' @ typ))"



section \<open>The damping of the nexthop tracking manager\<close>

subsection \<open>The delay\<close>

lemma sdiv2_nonneg: "0 \<le> (p::int) \<Longrightarrow> p sdiv 2 = p div 2"
  by (simp add: signed_divide_int_def sgn_if)



text \<open>
  The loop runs \<open>n + 1\<close> times, where \<open>n\<close> is fixed by
  \<open>951 * 2 ^ n \<le> penalty < 951 * 2 ^ (n + 1)\<close>: the halving is an integer division,
  so the loop stops as soon as the halved value is below 951.
\<close>

lemma delayLoop_count:
  "950 < p \<Longrightarrow>
   \<exists>n. delayLoop d p = d + 8 * int (Suc n) \<and> 951 * 2 ^ n \<le> p \<and> p < 951 * 2 ^ Suc n"
proof (induction d p rule: delayLoop.induct)
  case (1 d p)
  have step: "delayLoop d p = delayLoop (d + 8) (p sdiv 2)"
    using 1 by (subst delayLoop.simps) simp
  have half: "p sdiv 2 = p div 2" using 1 by (simp add: sdiv2_nonneg)
  show ?case
  proof (cases "p sdiv 2 > 950")
    case True
    with 1 obtain n where n: "delayLoop (d + 8) (p sdiv 2) = d + 8 + 8 * int (Suc n)"
      "951 * 2 ^ n \<le> p sdiv 2" "p sdiv 2 < 951 * 2 ^ Suc n" by auto
    have "delayLoop d p = d + 8 * int (Suc (Suc n))" using step n(1) by simp
    moreover have "951 * 2 ^ Suc n \<le> p" using n(2) half by simp
    moreover have "p < 951 * 2 ^ Suc (Suc n)" using n(3) half by simp
    ultimately show ?thesis by blast
  next
    case False
    then have "delayLoop (d + 8) (p sdiv 2) = d + 8" by (subst delayLoop.simps) simp
    with step have "delayLoop d p = d + 8 * int (Suc 0)" by simp
    moreover have "951 * 2 ^ 0 \<le> p" using 1 by simp
    moreover have "p < 951 * 2 ^ Suc 0" using False half by simp
    ultimately show ?thesis by blast
  qed
qed

lemma ceiling_log2_951:
  assumes "951 * 2 ^ n \<le> (p::int)" "p < 951 * 2 ^ Suc n"
  shows "\<lceil>log 2 ((real_of_int p + 1) / 951)\<rceil> = int n + 1"
proof -
  have pos: "0 < (real_of_int p + 1) / 951" using assms(1)
    by (smt (verit) divide_pos_pos of_int_0_le_iff zero_le_power mult_nonneg_nonneg)
  have a: "2 powr real n < (real_of_int p + 1) / 951"
  proof -
    have "real_of_int (951 * 2 ^ n) < real_of_int p + 1" using assms(1) by linarith
    then show ?thesis by (simp add: powr_realpow pos_less_divide_eq mult.commute)
  qed
  have b: "(real_of_int p + 1) / 951 \<le> 2 powr (real n + 1)"
  proof -
    have "p + 1 \<le> 951 * 2 ^ Suc n" using assms(2) by simp
    then have "real_of_int (p + 1) \<le> real_of_int (951 * 2 ^ Suc n)"
      by (rule of_int_le_iff [THEN iffD2])
    then show ?thesis by (simp add: powr_add powr_realpow pos_divide_le_eq mult.commute)
  qed
  show ?thesis
    using ceiling_log_eq_powr_iff [of "(real_of_int p + 1) / 951" 2 n] pos a b
    by (simp add: add.commute)
qed

text \<open>
  Claim C2, as amended. \<^verbatim>\<open>calculateDelay\<close> returns the configured delay of the manager
  for a penalty \<open>p\<close> of at most 950, and \<open>8 + 8 * \<lceil>log\<^sub>2 ((p + 1) / 951)\<rceil>\<close> above it:
  the integer halving makes 951, not 950, the base of the logarithm's argument.
\<close>

theorem calculateDelay_formula:
  "calculateDelay m p =
     (if p \<le> 950 then delay m
      else 8 + 8 * \<lceil>log 2 ((real_of_int p + 1) / 951)\<rceil>)"
proof (cases "p \<le> 950")
  case True
  then show ?thesis by (simp add: calculateDelay_def)
next
  case False
  then have "950 < p" by simp
  from delayLoop_count [OF this, of 8] obtain n where
    n: "delayLoop 8 p = 8 + 8 * int (Suc n)" "951 * 2 ^ n \<le> p" "p < 951 * 2 ^ Suc n"
    by blast
  have "\<lceil>log 2 ((real_of_int p + 1) / 951)\<rceil> = int n + 1"
    using n(2,3) by (rule ceiling_log2_951)
  with n(1) False show ?thesis by (simp add: calculateDelay_def)
qed

text \<open>
  Claim C2, as stated, fails at the penalty 1901: the loop halves 1901 to 950 and stops
  after one round with the delay 16, where \<open>8 + 8 * \<lceil>log\<^sub>2 (1901 / 950)\<rceil>\<close> is 24.
\<close>

theorem calculateDelay_counterexample:
  "calculateDelay (newNexthopTrackingManager 5) 1901 = 16
   \<and> 8 + 8 * \<lceil>log 2 (1901 / 950 :: real)\<rceil> = 24"
proof -
  have "\<lceil>log 2 (1901 / 950 :: real)\<rceil> = int 1 + 1"
    by (subst ceiling_log_eq_powr_iff) (simp_all add: powr_add)
  moreover have "calculateDelay (newNexthopTrackingManager 5) 1901 = 16"
    by (simp add: calculateDelay_def delayLoop.simps signed_divide_int_def)
  ultimately show ?thesis by simp
qed

subsection \<open>The penalty counter\<close>

lemma loopStep_penalty_nonneg: "0 \<le> penalty s \<Longrightarrow> 0 \<le> penalty (loopStep s e)"
  by (cases e) (simp_all add: Let_def sdiv2_nonneg)


lemma loopStep_penalty_le: "0 \<le> penalty s \<Longrightarrow> penalty (loopStep s e) \<le> penalty s + 500"
  by (cases e) (simp_all add: Let_def sdiv2_nonneg)

text \<open>
  The counter is a Go \<^verbatim>\<open>int\<close>, taken as an integer. It grows by at most 500 per event,
  so a run of the loop stays within 64 bits unless it has more than
  \<open>18446744073709551\<close> events.
\<close>

lemma loopRun_penalty_le:
  "0 \<le> penalty s \<Longrightarrow> penalty (loopRun s evs) \<le> penalty s + 500 * int (length evs)"
proof (induction evs arbitrary: s)
  case Nil
  then show ?case by simp
next
  case (Cons e evs)
  show ?case
  proof (cases "returned s")
    case True
    then show ?thesis using Cons.prems by simp
  next
    case False
    have "0 \<le> penalty (loopStep s e)" using Cons.prems by (rule loopStep_penalty_nonneg)
    then have "penalty (loopRun (loopStep s e) evs)
               \<le> penalty (loopStep s e) + 500 * int (length evs)"
      by (rule Cons.IH)
    also have "\<dots> \<le> penalty s + 500 + 500 * int (length evs)"
      using loopStep_penalty_le [OF Cons.prems, of e] by simp
    finally show ?thesis using False by simp
  qed
qed

lemma loop_penalty_in_range:
  "length evs \<le> 18446744073709551 \<Longrightarrow> penalty (loop m evs) < 2 ^ 63"
proof -
  assume "length evs \<le> 18446744073709551"
  then have "500 * int (length evs) \<le> 500 * 18446744073709551" by simp
  moreover have "penalty (loop m evs) \<le> penalty (loopInit m) + 500 * int (length evs)"
    unfolding loop_def by (rule loopRun_penalty_le) (simp add: loopInit_def)
  ultimately show ?thesis by (simp add: loopInit_def)
qed


subsection \<open>Monotonicity of the damping\<close>











section \<open>The translators\<close>

subsection \<open>The text of addresses and prefixes\<close>

text \<open>
  The text of an address has no slash, and the decimal text of a number parses back to
  the number: the text of an NLRI without a slash in its route distinguisher splits at the
  slash before the prefix length, and the length read from it is the length of the NLRI.
\<close>

lemma digits_nth_dec: "k < 10 \<Longrightarrow> digits ! k \<in> set ''0123456789''"
proof -
  assume "k < 10"
  then have "k \<in> {0,1,2,3,4,5,6,7,8,9}" by auto
  then show ?thesis by (auto simp: digits_def)
qed

lemma digits_nth_hex: "k < 16 \<Longrightarrow> digits ! k \<in> set digits"
  by (rule nth_mem) (simp add: digits_def)

lemma digitVal_digits: "k < 10 \<Longrightarrow> digitVal (digits ! k) = k"
proof -
  assume "k < 10"
  then have "k \<in> {0,1,2,3,4,5,6,7,8,9}" by auto
  then show ?thesis by (auto simp: digits_def digitVal_def)
qed

lemma uitoa_digits: "list_all (\<lambda>c. c \<in> set ''0123456789'') (uitoa n)"
proof (induction n rule: uitoa.induct)
  case (1 n)
  show ?case
  proof (cases "n < 10")
    case True
    then show ?thesis using digits_nth_dec [of n] by (subst uitoa.simps) simp
  next
    case False
    then show ?thesis using 1 digits_nth_dec [of "n mod 10"] by (subst uitoa.simps) simp
  qed
qed

lemma uitoa_nonempty: "uitoa n \<noteq> []"
  by (subst uitoa.simps) simp

lemma uitoa_value: "foldl (\<lambda>n c. 10 * n + digitVal c) 0 (uitoa n) = n"
proof (induction n rule: uitoa.induct)
  case (1 n)
  show ?case
  proof (cases "n < 10")
    case True
    then show ?thesis by (subst uitoa.simps) (simp add: digitVal_digits)
  next
    case False
    then show ?thesis using 1 by (subst uitoa.simps) (simp add: digitVal_digits)
  qed
qed

lemma ParseUint8_uitoa: "ParseUint8 (uitoa n) = min 255 n"
  unfolding ParseUint8_def
  by (simp only: uitoa_nonempty uitoa_digits uitoa_value simp_thms if_False)

lemma slash_digits: "CHR ''/'' \<notin> set digits"
  by (simp add: digits_def)

lemma uitoa_set: "set (uitoa n) \<subseteq> set digits"
proof (induction n rule: uitoa.induct)
  case (1 n)
  show ?case
  proof (cases "n < 10")
    case True
    then show ?thesis using digits_nth_hex [of n] by (subst uitoa.simps) simp
  next
    case False
    then show ?thesis using 1 digits_nth_hex [of "n mod 10"] by (subst uitoa.simps) simp
  qed
qed

lemma appendHex_set: "set (appendHex n) \<subseteq> set digits"
proof (induction n rule: appendHex.induct)
  case (1 n)
  show ?case
  proof (cases "n < 16")
    case True
    then show ?thesis using digits_nth_hex [of n] by (subst appendHex.simps) simp
  next
    case False
    then show ?thesis using 1 digits_nth_hex [of "n mod 16"] by (subst appendHex.simps) simp
  qed
qed

lemma join_set: "set (join xs sep) \<subseteq> (\<Union>x\<in>set xs. set x) \<union> set sep"
  by (induction xs sep rule: join.induct) auto

lemma hexString_set: "set (hexString b) \<subseteq> set digits"
proof -
  have "unat x div 16 < 16" for x :: byte
    using unsigned_less [of x, where 'a = nat] by simp
  then show ?thesis
    by (auto simp: hexString_def digits_nth_hex)
qed

lemma join_no_slash:
  assumes "\<And>x. x \<in> set xs \<Longrightarrow> CHR ''/'' \<notin> set x" and "CHR ''/'' \<notin> set sep"
  shows "CHR ''/'' \<notin> set (join xs sep)"
  using assms join_set [of xs sep] by auto

lemma ipv6_String_no_slash: "CHR ''/'' \<notin> set (ipv6_String gs)"
proof -
  have hex: "CHR ''/'' \<notin> set (appendHex n)" for n
    using appendHex_set [of n] slash_digits by auto
  have j: "CHR ''/'' \<notin> set (join (map appendHex ys) '':'')" for ys
    by (rule join_no_slash) (auto simp: hex)
  show ?thesis
    by (simp add: ipv6_String_def Let_def j split: prod.splits)
qed

lemma IP_String_no_slash: "CHR ''/'' \<notin> set (IP_String ip)"
proof -
  have dec: "CHR ''/'' \<notin> set (uitoa n)" for n
    using uitoa_set [of n] slash_digits by auto
  have d: "CHR ''/'' \<notin> set (join (map (\<lambda>b. uitoa (unat b)) ys) ''.'')" for ys :: "byte list"
    by (rule join_no_slash) (auto simp: dec)
  have h: "CHR ''/'' \<notin> set (hexString ip)"
    using hexString_set [of ip] slash_digits by auto
  show ?thesis
    by (simp add: IP_String_def d h ipv6_String_no_slash)
qed

lemma takeWhile_sep: "sep \<notin> set a \<Longrightarrow> takeWhile (\<lambda>c. c \<noteq> sep) (a @ sep # b) = a"
  by (induction a) auto

lemma dropWhile_sep: "sep \<notin> set a \<Longrightarrow> dropWhile (\<lambda>c. c \<noteq> sep) (a @ sep # b) = sep # b"
  by (induction a) auto

lemma SplitN2_slash:
  "sep \<notin> set a \<Longrightarrow> SplitN2 (a @ sep # b) sep = [a, b]"
  by (simp add: SplitN2_def takeWhile_sep dropWhile_sep)

lemma SplitN2_Nlri_String:
  assumes "CHR ''/'' \<notin> set (nlri_RD n)"
  shows "\<exists>l0. SplitN2 (Nlri_String n) CHR ''/'' = [l0, uitoa (unat (nlri_Length n))]"
proof -
  let ?a = "(if nlri_RD n = [] then [] else nlri_RD n @ '':'') @ IP_String (nlri_Prefix n)"
  have "CHR ''/'' \<notin> set ?a" using assms IP_String_no_slash by simp
  then have "SplitN2 (?a @ CHR ''/'' # uitoa (unat (nlri_Length n))) CHR ''/''
             = [?a, uitoa (unat (nlri_Length n))]"
    by (rule SplitN2_slash)
  then show ?thesis by (simp add: Nlri_String_def)
qed

lemma ParseUint8_length: "ParseUint8 (uitoa (unat (x :: 8 word))) = unat x"
proof -
  have "unat x < 256" using unsigned_less [of x, where 'a = nat] by simp
  then show ?thesis by (simp add: ParseUint8_uitoa)
qed

subsection \<open>The nexthop list and the returned pair\<close>

lemma nexthopsV4_self: "nexthopsV4 True paths = replicate (length paths) [127, 0, 0, 1]"
  by (induction paths) (simp_all add: To4_def IPv4_def v4InV6Prefix_def Let_def)

lemma nexthopsV6_self: "nexthopsV6 True paths = replicate (length paths) IPv6loopback"
  by (induction paths) (simp_all add: To16_def IPv6loopback_def Let_def)

lemma nexthopsV4_filter:
  "nexthopsV4 False paths = filter (\<lambda>nh. nh \<noteq> []) (map (\<lambda>p. To4 (nexthop p)) paths)"
  by (induction paths) (simp_all add: Let_def)

lemma nexthopsV6_filter:
  "nexthopsV6 False paths = filter (\<lambda>nh. nh \<noteq> []) (map (\<lambda>p. To16 (nexthop p)) paths)"
  by (induction paths) (simp_all add: Let_def)

lemma routeBody_Some:
  assumes "routeBody c path l prefix nexthops = Inr (Some body, w)"
  shows "w = IsWithdraw path \<and> Nexthops body = nexthops \<and> Prefix body = prefix
     \<and> (MESSAGE_NEXTHOP \<in> Message body \<longleftrightarrow> nexthops \<noteq> [])"
  using assms unfolding routeBody_def Let_def
  by (auto split: list.splits option.splits if_splits)

lemma newIPRouteBody_Some:
  assumes "newIPRouteBody c dst sw = Inr (Some body, w)"
  shows "\<exists>path rest. filterOutExternalPath dst = path # rest
     \<and> w = IsWithdraw path
     \<and> (GetRouteFamily path = RF_IPv4_UC \<or> GetRouteFamily path = RF_IPv4_VPN
        \<or> GetRouteFamily path = RF_IPv6_UC \<or> GetRouteFamily path = RF_IPv6_VPN)
     \<and> Nexthops body =
         (if GetRouteFamily path = RF_IPv4_UC \<or> GetRouteFamily path = RF_IPv4_VPN
          then nexthopsV4 sw (path # rest) else nexthopsV6 sw (path # rest))
     \<and> (MESSAGE_NEXTHOP \<in> Message body \<longleftrightarrow> Nexthops body \<noteq> [])"
proof (cases "filterOutExternalPath dst")
  case Nil
  with assms show ?thesis by (simp add: newIPRouteBody_def)
next
  case (Cons path rest)
  show ?thesis
  proof (cases "GetRouteFamily path = RF_IPv4_UC \<or> GetRouteFamily path = RF_IPv4_VPN")
    case True
    with assms Cons have "routeBody c path (SplitN2 (Nlri_String (nlri path)) CHR ''/'')
        (To4 (nlri_Prefix (nlri path))) (nexthopsV4 sw (path # rest)) = Inr (Some body, w)"
      by (simp add: newIPRouteBody_def Let_def del: nexthopsV4.simps)
    from routeBody_Some [OF this] Cons True show ?thesis by (auto simp del: nexthopsV4.simps)
  next
    case False
    show ?thesis
    proof (cases "GetRouteFamily path = RF_IPv6_UC \<or> GetRouteFamily path = RF_IPv6_VPN")
      case v6: True
      with assms Cons False have "routeBody c path (SplitN2 (Nlri_String (nlri path)) CHR ''/'')
          (To16 (nlri_Prefix (nlri path))) (nexthopsV6 sw (path # rest)) = Inr (Some body, w)"
        by (simp add: newIPRouteBody_def Let_def del: nexthopsV6.simps)
      from routeBody_Some [OF this] Cons False v6 show ?thesis by (auto simp del: nexthopsV6.simps)
    next
      case other: False
      with assms Cons False show ?thesis by (simp add: newIPRouteBody_def Let_def)
    qed
  qed
qed

lemma routeBody_dropped:
  assumes "source path = Some info" and "ParseUint8 l1 = 0"
    and "nlri_PathLocalIdentifier (nlri path) = 0"
  shows "routeBody c path [l0, l1] prefix nexthops = Inr (None, False)"
  using assms by (simp add: routeBody_def)

lemma routeBody_emitted:
  assumes "source path = Some info"
    and "\<not> (ParseUint8 l1 = 0 \<and> nlri_PathLocalIdentifier (nlri path) = 0)"
  shows "\<exists>body. routeBody c path [l0, l1] prefix nexthops = Inr (Some body, IsWithdraw path)
           \<and> Nexthops body = nexthops
           \<and> (MESSAGE_NEXTHOP \<in> Message body \<longleftrightarrow> nexthops \<noteq> [])"
  using assms by (auto simp: routeBody_def Let_def)

lemma newIPRouteBody_v4:
  assumes "filterOutExternalPath dst = path # rest"
    and "GetRouteFamily path = RF_IPv4_UC \<or> GetRouteFamily path = RF_IPv4_VPN"
  shows "newIPRouteBody c dst sw =
     routeBody c path (SplitN2 (Nlri_String (nlri path)) CHR ''/'')
       (To4 (nlri_Prefix (nlri path))) (nexthopsV4 sw (path # rest))"
  using assms by (simp add: newIPRouteBody_def Let_def del: nexthopsV4.simps)

lemma newIPRouteBody_v6:
  assumes "filterOutExternalPath dst = path # rest"
    and "GetRouteFamily path = RF_IPv6_UC \<or> GetRouteFamily path = RF_IPv6_VPN"
  shows "newIPRouteBody c dst sw =
     routeBody c path (SplitN2 (Nlri_String (nlri path)) CHR ''/'')
       (To16 (nlri_Prefix (nlri path))) (nexthopsV6 sw (path # rest))"
  using assms by (auto simp: newIPRouteBody_def Let_def simp del: nexthopsV6.simps)

subsection \<open>The round trip\<close>

text \<open>
  Claim C1, as amended. For every route message of the IPv4 or IPv6 unicast family with
  at least one nexthop, the ingress translator builds a path that is marked as coming from
  outside, with the withdraw flag and the prefix length of the message, and with its
  prefix and its first nexthop in the width of the family; and the egress translator,
  given the batch of that one path, filters the path out and yields no message, with
  is-withdraw false.
\<close>

lemma nth_four: "length ip = 4 \<Longrightarrow> [ip ! 0, ip ! 1, ip ! 2, ip ! 3] = ip"
proof -
  assume "length ip = 4"
  then obtain a b c d where "ip = [a, b, c, d]"
    by (auto simp: length_Suc_conv numeral_eq_Suc)
  then show ?thesis by simp
qed

lemma To4_To16: "To4 (To16 ip) = To4 ip"
  using nth_four [of ip] by (simp add: To4_def To16_def IPv4_def v4InV6Prefix_def)


theorem ingress_path_is_elided:
  assumes "RouteFamily body = RF_IPv4_UC \<or> RouteFamily body = RF_IPv6_UC"
    and "Nexthops body \<noteq> []"
  shows "\<exists>p. createPathFromIPRouteMessage body = Some p \<and> isFromExternal p
           \<and> IsWithdraw p = IsWithdraw_body body
           \<and> nlri_Length (nlri p) = PrefixLength body
           \<and> nlri_Prefix (nlri p) =
               (if RouteFamily body = RF_IPv4_UC then To4 (Prefix body)
                else To16 (Prefix body))
           \<and> nexthop p =
               (if RouteFamily body = RF_IPv4_UC then To4 (Nexthops body ! 0)
                else To16 (Nexthops body ! 0))
           \<and> newIPRouteBody c [Some p] selfRouteWithdraw = Inr (None, False)"
  using assms
  by (auto simp: createPathFromIPRouteMessage_def Let_def SetIsFromExternal_def NewPath_def
        NewIPAddrPrefix_def NewIPv6AddrPrefix_def newIPRouteBody_def To4_To16)

theorem ingress_path_is_elided_witness:
  "RouteFamily exampleRoute = RF_IPv4_UC \<and> Nexthops exampleRoute \<noteq> []
   \<and> (\<exists>p. createPathFromIPRouteMessage exampleRoute = Some p \<and> isFromExternal p
           \<and> IsWithdraw p = IsWithdraw_body exampleRoute
           \<and> nlri_Length (nlri p) = 24
           \<and> nlri_Prefix (nlri p) = [10, 0, 0, 0]
           \<and> nexthop p = [192, 0, 2, 1]
           \<and> newIPRouteBody 0 [Some p] False = Inr (None, False))"
proof -
  have f: "RouteFamily exampleRoute = RF_IPv4_UC \<or> RouteFamily exampleRoute = RF_IPv6_UC"
    by (simp add: RouteFamily_def exampleRoute_def)
  have n: "Nexthops exampleRoute \<noteq> []" by (simp add: exampleRoute_def)
  have v: "RouteFamily exampleRoute = RF_IPv4_UC" "PrefixLength exampleRoute = 24"
    "To4 (Prefix exampleRoute) = [10, 0, 0, 0]" "To4 (Nexthops exampleRoute ! 0) = [192, 0, 2, 1]"
    by (simp_all add: RouteFamily_def exampleRoute_def To4_def)
  with n ingress_path_is_elided [OF f n, of 0 False] show ?thesis by simp
qed

text \<open>
  Claim C1, as stated, fails on the route message of 10.0.0.0/24 via 192.0.2.1: the path
  built from it is filtered out by the egress translator, and no message comes back.
\<close>

theorem round_trip_counterexample:
  "RouteFamily exampleRoute = RF_IPv4_UC \<and> Nexthops exampleRoute \<noteq> []
   \<and> newIPRouteBody 0 [createPathFromIPRouteMessage exampleRoute] False = Inr (None, False)"
  by code_simp

subsection \<open>The encoding of a self-withdraw\<close>

text \<open>
  Claim C3, as amended. Whenever \<^verbatim>\<open>newIPRouteBody\<close> with self-route-withdraw set emits a
  message, the message has one nexthop per path that is not external, each 127.0.0.1
  when the family of the representative is IPv4 unicast or VPN and ::1 when it is IPv6
  unicast or VPN; and the is-withdraw flag returned with it is the withdraw flag of the
  representative path.
\<close>

theorem self_withdraw_encoding:
  assumes "newIPRouteBody c dst True = Inr (Some body, w)"
  shows "\<exists>path rest. filterOutExternalPath dst = path # rest
     \<and> Nexthops body =
         replicate (Suc (length rest))
           (if GetRouteFamily path = RF_IPv4_UC \<or> GetRouteFamily path = RF_IPv4_VPN
            then [127, 0, 0, 1] else IPv6loopback)
     \<and> w = IsWithdraw path"
proof -
  from newIPRouteBody_Some [OF assms] obtain path rest where
    p: "filterOutExternalPath dst = path # rest" "w = IsWithdraw path"
       "Nexthops body =
         (if GetRouteFamily path = RF_IPv4_UC \<or> GetRouteFamily path = RF_IPv4_VPN
          then nexthopsV4 True (path # rest) else nexthopsV6 True (path # rest))"
    by blast
  from p(3) have "Nexthops body =
         replicate (Suc (length rest))
           (if GetRouteFamily path = RF_IPv4_UC \<or> GetRouteFamily path = RF_IPv4_VPN
            then [127, 0, 0, 1] else IPv6loopback)"
    by (simp only: nexthopsV4_self nexthopsV6_self length_Cons if_distrib [of "replicate _"] split: if_splits)
  with p(1,2) show ?thesis by blast
qed

lemma example_self_withdraw:
  "newIPRouteBody 0 [Some examplePath] True =
     Inr (Some \<lparr>Api = API_OTHER, Type = ROUTE_BGP, Flags = {}, SAFI = SAFI_UNICAST,
                Message = {MESSAGE_NEXTHOP}, Prefix = [10, 0, 0, 0], PrefixLength = 24,
                Nexthops = [[127, 0, 0, 1]], Metric = 0, Aux = [], PathId = 0\<rparr>, False)"
  by code_simp

theorem self_withdraw_encoding_witness:
  "\<exists>path rest. filterOutExternalPath [Some examplePath] = path # rest
     \<and> Nexthops \<lparr>Api = API_OTHER, Type = ROUTE_BGP, Flags = {}, SAFI = SAFI_UNICAST,
                Message = {MESSAGE_NEXTHOP}, Prefix = [10, 0, 0, 0], PrefixLength = 24,
                Nexthops = [[127, 0, 0, 1]], Metric = 0, Aux = [], PathId = 0\<rparr> =
         replicate (Suc (length rest))
           (if GetRouteFamily path = RF_IPv4_UC \<or> GetRouteFamily path = RF_IPv4_VPN
            then [127, 0, 0, 1] else IPv6loopback)
     \<and> False = IsWithdraw path"
  by (rule self_withdraw_encoding [OF example_self_withdraw])

text \<open>
  Claim C3, as stated, fails on the batch of the example path, which is not a withdraw:
  the nexthop of the message is 127.0.0.1, and the flag returned with it is false.
\<close>

theorem self_withdraw_counterexample:
  "GetRouteFamily examplePath = RF_IPv4_UC
   \<and> newIPRouteBody 0 [Some examplePath] True =
     Inr (Some \<lparr>Api = API_OTHER, Type = ROUTE_BGP, Flags = {}, SAFI = SAFI_UNICAST,
                Message = {MESSAGE_NEXTHOP}, Prefix = [10, 0, 0, 0], PrefixLength = 24,
                Nexthops = [[127, 0, 0, 1]], Metric = 0, Aux = [], PathId = 0\<rparr>, False)"
  by code_simp

subsection \<open>Nexthops without a form in the width of the family\<close>

text \<open>
  Claim C9, as amended. Let the representative of the batch have an IPv4 or IPv6 family,
  a source, and no slash in its route distinguisher, and let self-route-withdraw be
  false. If its prefix length is 0 and its path-local identifier is 0, no message is
  returned. Otherwise a message is returned with the is-withdraw flag of the
  representative; its nexthops are those of the paths that are not external, in the
  width of the family, without the ones that have no form in that width; and its
  has-nexthop flag is set exactly when that list is not empty.
\<close>

theorem unconvertible_nexthops_omitted:
  assumes f: "filterOutExternalPath dst = path # rest"
    and fam: "GetRouteFamily path = RF_IPv4_UC \<or> GetRouteFamily path = RF_IPv4_VPN
              \<or> GetRouteFamily path = RF_IPv6_UC \<or> GetRouteFamily path = RF_IPv6_VPN"
    and src: "source path \<noteq> None"
    and rd: "CHR ''/'' \<notin> set (nlri_RD (nlri path))"
  shows "(nlri_Length (nlri path) = 0 \<and> nlri_PathLocalIdentifier (nlri path) = 0 \<longrightarrow>
            newIPRouteBody c dst False = Inr (None, False))
     \<and> (\<not> (nlri_Length (nlri path) = 0 \<and> nlri_PathLocalIdentifier (nlri path) = 0) \<longrightarrow>
          (\<exists>body. newIPRouteBody c dst False = Inr (Some body, IsWithdraw path)
             \<and> Nexthops body =
                 filter (\<lambda>nh. nh \<noteq> [])
                   (map (\<lambda>p. if GetRouteFamily path = RF_IPv4_UC
                                  \<or> GetRouteFamily path = RF_IPv4_VPN
                               then To4 (nexthop p) else To16 (nexthop p)) (path # rest))
             \<and> (MESSAGE_NEXTHOP \<in> Message body \<longleftrightarrow> Nexthops body \<noteq> [])))"
proof -
  from src obtain info where info: "source path = Some info" by blast
  from SplitN2_Nlri_String [OF rd] obtain l0 where
    l: "SplitN2 (Nlri_String (nlri path)) CHR ''/'' = [l0, uitoa (unat (nlri_Length (nlri path)))]"
    by blast
  have plen: "ParseUint8 (uitoa (unat (nlri_Length (nlri path)))) = 0
              \<longleftrightarrow> nlri_Length (nlri path) = 0"
    by (simp add: ParseUint8_length unat_eq_0)
  show ?thesis
  proof (cases "GetRouteFamily path = RF_IPv4_UC \<or> GetRouteFamily path = RF_IPv4_VPN")
    case True
    note eq = newIPRouteBody_v4 [OF f True, of c False, unfolded l nexthopsV4_filter]
    show ?thesis
    proof (intro conjI impI)
      assume "nlri_Length (nlri path) = 0 \<and> nlri_PathLocalIdentifier (nlri path) = 0"
      then show "newIPRouteBody c dst False = Inr (None, False)"
        unfolding eq using plen by (intro routeBody_dropped [OF info]) simp_all
    next
      assume "\<not> (nlri_Length (nlri path) = 0 \<and> nlri_PathLocalIdentifier (nlri path) = 0)"
      then have "\<not> (ParseUint8 (uitoa (unat (nlri_Length (nlri path)))) = 0
                  \<and> nlri_PathLocalIdentifier (nlri path) = 0)"
        using plen by simp
      from routeBody_emitted [OF info this] True
      show "\<exists>body. newIPRouteBody c dst False = Inr (Some body, IsWithdraw path)
             \<and> Nexthops body =
                 filter (\<lambda>nh. nh \<noteq> [])
                   (map (\<lambda>p. if GetRouteFamily path = RF_IPv4_UC
                                  \<or> GetRouteFamily path = RF_IPv4_VPN
                               then To4 (nexthop p) else To16 (nexthop p)) (path # rest))
             \<and> (MESSAGE_NEXTHOP \<in> Message body \<longleftrightarrow> Nexthops body \<noteq> [])"
        unfolding eq by (simp only: if_True) metis
    qed
  next
    case False
    with fam have v6: "GetRouteFamily path = RF_IPv6_UC \<or> GetRouteFamily path = RF_IPv6_VPN"
      by blast
    note eq = newIPRouteBody_v6 [OF f v6, of c False, unfolded l nexthopsV6_filter]
    show ?thesis
    proof (intro conjI impI)
      assume "nlri_Length (nlri path) = 0 \<and> nlri_PathLocalIdentifier (nlri path) = 0"
      then show "newIPRouteBody c dst False = Inr (None, False)"
        unfolding eq using plen by (intro routeBody_dropped [OF info]) simp_all
    next
      assume "\<not> (nlri_Length (nlri path) = 0 \<and> nlri_PathLocalIdentifier (nlri path) = 0)"
      then have "\<not> (ParseUint8 (uitoa (unat (nlri_Length (nlri path)))) = 0
                  \<and> nlri_PathLocalIdentifier (nlri path) = 0)"
        using plen by simp
      from routeBody_emitted [OF info this] False
      show "\<exists>body. newIPRouteBody c dst False = Inr (Some body, IsWithdraw path)
             \<and> Nexthops body =
                 filter (\<lambda>nh. nh \<noteq> [])
                   (map (\<lambda>p. if GetRouteFamily path = RF_IPv4_UC
                                  \<or> GetRouteFamily path = RF_IPv4_VPN
                               then To4 (nexthop p) else To16 (nexthop p)) (path # rest))
             \<and> (MESSAGE_NEXTHOP \<in> Message body \<longleftrightarrow> Nexthops body \<noteq> [])"
        unfolding eq by (simp only: if_False) metis
    qed
  qed
qed

theorem unconvertible_nexthops_omitted_witness:
  "filterOutExternalPath [Some exampleV6NexthopPath] = [exampleV6NexthopPath]
   \<and> GetRouteFamily exampleV6NexthopPath = RF_IPv4_UC
   \<and> source exampleV6NexthopPath \<noteq> None
   \<and> CHR ''/'' \<notin> set (nlri_RD (nlri exampleV6NexthopPath))
   \<and> To4 (nexthop exampleV6NexthopPath) = []
   \<and> newIPRouteBody 0 [Some exampleV6NexthopPath] False =
       Inr (Some \<lparr>Api = API_OTHER, Type = ROUTE_BGP, Flags = {}, SAFI = SAFI_UNICAST,
                  Message = {}, Prefix = [10, 0, 0, 0], PrefixLength = 24,
                  Nexthops = [], Metric = 0, Aux = [], PathId = 0\<rparr>, False)"
proof -
  have f: "filterOutExternalPath [Some exampleV6NexthopPath] = exampleV6NexthopPath # []"
    by (simp add: exampleV6NexthopPath_def examplePath_def)
  have fam4: "GetRouteFamily exampleV6NexthopPath = RF_IPv4_UC"
    by (simp add: GetRouteFamily_def exampleV6NexthopPath_def examplePath_def exampleNlri_def)
  then have fam: "GetRouteFamily exampleV6NexthopPath = RF_IPv4_UC
      \<or> GetRouteFamily exampleV6NexthopPath = RF_IPv4_VPN
      \<or> GetRouteFamily exampleV6NexthopPath = RF_IPv6_UC
      \<or> GetRouteFamily exampleV6NexthopPath = RF_IPv6_VPN"
    by simp
  have src: "source exampleV6NexthopPath \<noteq> None"
    by (simp add: exampleV6NexthopPath_def examplePath_def)
  have rd: "CHR ''/'' \<notin> set (nlri_RD (nlri exampleV6NexthopPath))"
    by (simp add: exampleV6NexthopPath_def examplePath_def exampleNlri_def)
  have len: "nlri_Length (nlri exampleV6NexthopPath) \<noteq> 0"
    by (simp add: exampleV6NexthopPath_def examplePath_def exampleNlri_def)
  have nh: "To4 (nexthop exampleV6NexthopPath) = []"
    by code_simp
  have eq: "newIPRouteBody 0 [Some exampleV6NexthopPath] False =
       Inr (Some \<lparr>Api = API_OTHER, Type = ROUTE_BGP, Flags = {}, SAFI = SAFI_UNICAST,
                  Message = {}, Prefix = [10, 0, 0, 0], PrefixLength = 24,
                  Nexthops = [], Metric = 0, Aux = [], PathId = 0\<rparr>, False)"
    by code_simp
  from unconvertible_nexthops_omitted [OF f fam src rd, of 0] len
  have "\<exists>body. newIPRouteBody 0 [Some exampleV6NexthopPath] False
                  = Inr (Some body, IsWithdraw exampleV6NexthopPath)"
    by blast
  with f fam4 src rd nh eq show ?thesis by simp
qed

text \<open>
  Claim C9, as stated, fails on the IPv4 default route with no path-local identifier and
  an IPv6 nexthop: its only nexthop is omitted, and no message is returned.
\<close>

theorem unconvertible_nexthops_counterexample:
  "GetRouteFamily exampleDefaultPath = RF_IPv4_UC
   \<and> To4 (nexthop exampleDefaultPath) = []
   \<and> newIPRouteBody 0 [Some exampleDefaultPath] False = Inr (None, False)"
  by code_simp

subsection \<open>The nexthop register body\<close>






section \<open>Nexthop updates\<close>

lemma SetMed_metric: "med (SetMed (uint (x :: 32 word)) True p) = Some x"
  by (simp add: SetMed_def)

lemma SetMed_invalid: "IsNexthopInvalid (SetMed v r p) = IsNexthopInvalid p"
  by (simp add: SetMed_def Let_def)

text \<open>
  Claim C6. The path list returned for a nexthop update has one clone per path bound to
  the nexthop. If the update has no nexthop, every clone is marked nexthop-invalid; if
  it has one or more, no clone is marked and the MED of every clone is the metric of the
  update.
\<close>

theorem nexthop_update_invalidation:
  assumes "createPathListFromNexthopUpdateMessage body manager nht = ((paths, b, err), nht')"
  shows "length paths =
           length (GetPathListWithNexthop manager (rfListFromNexthopUpdateBody body) (nu_Prefix body))
     \<and> (nu_Nexthops body = [] \<longrightarrow> (\<forall>p \<in> set paths. IsNexthopInvalid p))
     \<and> (nu_Nexthops body \<noteq> [] \<longrightarrow>
          (\<forall>p \<in> set paths. \<not> IsNexthopInvalid p \<and> med p = Some (nu_Metric body)))"
  using assms
  by (auto simp: createPathListFromNexthopUpdateMessage_def Let_def SetMed_metric SetMed_invalid)

theorem nexthop_update_invalidation_witness:
  "length (fst (fst (createPathListFromNexthopUpdateMessage (exampleUpdate\<lparr>nu_Nexthops := []\<rparr>)
      exampleTable (newNexthopTrackingManager 5)))) = 2
   \<and> list_all IsNexthopInvalid
       (fst (fst (createPathListFromNexthopUpdateMessage (exampleUpdate\<lparr>nu_Nexthops := []\<rparr>)
          exampleTable (newNexthopTrackingManager 5))))
   \<and> length (fst (fst (createPathListFromNexthopUpdateMessage exampleUpdate
      exampleTable (newNexthopTrackingManager 5)))) = 2
   \<and> list_all (\<lambda>p. \<not> IsNexthopInvalid p \<and> med p = Some 20)
       (fst (fst (createPathListFromNexthopUpdateMessage exampleUpdate
          exampleTable (newNexthopTrackingManager 5))))"
proof -
  let ?down = "createPathListFromNexthopUpdateMessage (exampleUpdate\<lparr>nu_Nexthops := []\<rparr>)
      exampleTable (newNexthopTrackingManager 5)"
  let ?up = "createPathListFromNexthopUpdateMessage exampleUpdate
      exampleTable (newNexthopTrackingManager 5)"
  have d: "?down = ((fst (fst ?down), fst (snd (fst ?down)), snd (snd (fst ?down))), snd ?down)"
    by simp
  have u: "?up = ((fst (fst ?up), fst (snd (fst ?up)), snd (snd (fst ?up))), snd ?up)"
    by simp
  have b: "length (GetPathListWithNexthop exampleTable
             (rfListFromNexthopUpdateBody exampleUpdate) (nu_Prefix exampleUpdate)) = 2"
    by code_simp
  have b': "length (GetPathListWithNexthop exampleTable
             (rfListFromNexthopUpdateBody (exampleUpdate\<lparr>nu_Nexthops := []\<rparr>))
             (nu_Prefix (exampleUpdate\<lparr>nu_Nexthops := []\<rparr>))) = 2"
    by code_simp
  have e: "nu_Nexthops exampleUpdate \<noteq> []" "nu_Metric exampleUpdate = 20"
    by (simp_all add: exampleUpdate_def)
  from nexthop_update_invalidation [OF d] nexthop_update_invalidation [OF u] b b' e
  show ?thesis
    by (simp add: list_all_iff)
qed

text \<open>
  Claim C10. The error that \<^verbatim>\<open>createPathListFromNexthopUpdateMessage\<close> returns is nil for
  every update, table manager and tracking manager, and the branch of the bridge loop
  for a nexthop update never logs the failure.
\<close>

theorem nexthop_update_no_error:
  "snd (snd (fst (createPathListFromNexthopUpdateMessage body manager nht))) = None
   \<and> (\<forall>s. LogErrorf s \<notin> set (fst (onNexthopUpdate vrfId body manager nht)))"
  by (auto simp: createPathListFromNexthopUpdateMessage_def onNexthopUpdate_def Let_def
        scheduleUpdate_def split: option.splits)

section \<open>Opening the bridge\<close>

lemma redistribute_unknown:
  "typ \<in> set protos \<Longrightarrow> R typ = Inl e \<Longrightarrow>
   \<exists>acts err. redistribute R protos = (acts, Some err) \<and> GoLoop \<notin> set acts"
proof (induction protos)
  case Nil
  then show ?case by simp
next
  case (Cons a protos)
  show ?case
  proof (cases "R a")
    case (Inl e')
    then show ?thesis by simp
  next
    case (Inr t)
    with Cons have "typ \<in> set protos" by auto
    with Cons obtain acts err where "redistribute R protos = (acts, Some err)" "GoLoop \<notin> set acts"
      by blast
    with Inr show ?thesis by simp
  qed
qed

lemma SplitN2_no_sep: "sep \<notin> set s \<Longrightarrow> SplitN2 s sep = [s]"
  by (simp add: SplitN2_def)

lemma SplitN2_shape: "(\<exists>l0 l1. SplitN2 s sep = [l0, l1]) \<or> SplitN2 s sep = [s]"
  by (simp add: SplitN2_def)

text \<open>
  Claim C8. \<^verbatim>\<open>newZebraClient\<close> returns the error \<^verbatim>\<open>unsupported url\<close>, having done nothing,
  for a URL without a colon; and for a list of protocols with a name that
  \<^verbatim>\<open>RouteTypeFromString\<close> rejects it returns an error and has not started the bridge loop.
\<close>

theorem newZebraClient_config_errors:
  "(CHR '':'' \<notin> set url \<longrightarrow>
      newZebraClient N R url protos version nhtEnable nhtDelay
        = ([], Inl (''unsupported url: '' @ url)))
   \<and> ((\<exists>typ \<in> set protos. \<exists>e. R typ = Inl e) \<longrightarrow>
        (\<exists>acts err. newZebraClient N R url protos version nhtEnable nhtDelay = (acts, Inl err)
                    \<and> GoLoop \<notin> set acts))"
proof (intro conjI impI)
  assume "CHR '':'' \<notin> set url"
  then show "newZebraClient N R url protos version nhtEnable nhtDelay
        = ([], Inl (''unsupported url: '' @ url))"
    by (simp add: newZebraClient_def SplitN2_no_sep)
next
  assume "\<exists>typ \<in> set protos. \<exists>e. R typ = Inl e"
  then obtain acts err where r: "redistribute R protos = (acts, Some err)" "GoLoop \<notin> set acts"
    using redistribute_unknown by blast
  from SplitN2_shape [of url "CHR '':''"]
  show "\<exists>acts err. newZebraClient N R url protos version nhtEnable nhtDelay = (acts, Inl err)
                    \<and> GoLoop \<notin> set acts"
  proof
    assume "\<exists>l0 l1. SplitN2 url CHR '':'' = [l0, l1]"
    then obtain l0 l1 where l: "SplitN2 url CHR '':'' = [l0, l1]" by blast
    show ?thesis
    proof (cases "N l0 l1 ROUTE_BGP version")
      case (Inl e)
      with l show ?thesis by (simp add: newZebraClient_def)
    next
      case (Inr cli)
      with l r show ?thesis by (simp add: newZebraClient_def)
    qed
  next
    assume "SplitN2 url CHR '':'' = [url]"
    then show ?thesis by (simp add: newZebraClient_def)
  qed
qed

theorem newZebraClient_config_errors_witness:
  "CHR '':'' \<notin> set ''unix/var/run/zserv.api''
   \<and> newZebraClient exampleNewClient exampleRouteTypeFromString ''unix/var/run/zserv.api''
        [''static''] 2 True 5
      = ([], Inl ''unsupported url: unix/var/run/zserv.api'')
   \<and> exampleRouteTypeFromString ''bogus'' = Inl ''unknown route type: bogus''
   \<and> newZebraClient exampleNewClient exampleRouteTypeFromString ''unix:/var/run/zserv.api''
        [''static'', ''bogus''] 2 True 5
      = ([SendInterfaceAdd, SendRedistribute ROUTE_STATIC], Inl ''unknown route type: bogus'')"
proof -
  have c: "CHR '':'' \<notin> set ''unix/var/run/zserv.api''" by simp
  have r: "exampleRouteTypeFromString ''bogus'' = Inl ''unknown route type: bogus''"
    by (simp add: exampleRouteTypeFromString_def)
  have "newZebraClient exampleNewClient exampleRouteTypeFromString ''unix:/var/run/zserv.api''
        [''static'', ''bogus''] 2 True 5
      = ([SendInterfaceAdd, SendRedistribute ROUTE_STATIC], Inl ''unknown route type: bogus'')"
    by code_simp
  with c r
    newZebraClient_config_errors [of "''unix/var/run/zserv.api''" exampleNewClient
      exampleRouteTypeFromString "[''static'']" 2 True 5]
    newZebraClient_config_errors [of "''unix:/var/run/zserv.api''" exampleNewClient
      exampleRouteTypeFromString "[''static'', ''bogus'']" 2 True 5]
  show ?thesis by simp
qed

end
